theory Spec2Isabelle
  imports Main
begin

section \<open>Python values and string primitives\<close>

text \<open>
  The module under verification is \<^verbatim>\<open>data_curation/downloading/imgur_downloader.py\<close>.
  Python \<^verbatim>\<open>str\<close> values are modelled as \<^typ>\<open>string\<close>; a value that may also be
  \<^verbatim>\<open>None\<close> is a \<^typ>\<open>string option\<close>. \<^verbatim>\<open>clasify_url\<close> returns either a
  \<^verbatim>\<open>str\<close> or the \<^verbatim>\<open>int\<close> \<^verbatim>\<open>-1\<close>, so its result is a tagged value.
\<close>

datatype pyval = PyStr string | PyInt int

text \<open>\<^verbatim>\<open>s.startswith(sub)\<close>\<close>

fun startswith :: "string \<Rightarrow> string \<Rightarrow> bool" where
  "startswith s [] = True"
| "startswith [] (c # sub) = False"
| "startswith (x # s) (c # sub) = (x = c \<and> startswith s sub)"

text \<open>\<^verbatim>\<open>sub in s\<close>: the substring test, scanning the start positions from the left.\<close>

fun str_contains :: "string \<Rightarrow> string \<Rightarrow> bool" where
  "str_contains sub [] = (sub = [])"
| "str_contains sub (c # s) = (startswith (c # s) sub \<or> str_contains sub s)"

section \<open>The URL classifier\<close>

text \<open>
  \<^verbatim>\<open>
  def clasify_url(imgur_link:str):
      if 'i.imgur.com' in imgur_link:
          return 'image'
      if '/a/' in imgur_link or '/gallery/' in imgur_link:
          return 'album'
      if 'imgur.com' in imgur_link:
          return 'post'
      return -1
  \<close>
\<close>

definition clasify_url :: "string \<Rightarrow> pyval" where
  "clasify_url imgur_link =
     (if str_contains ''i.imgur.com'' imgur_link then PyStr ''image''
      else if str_contains ''/a/'' imgur_link \<or> str_contains ''/gallery/'' imgur_link
        then PyStr ''album''
      else if str_contains ''imgur.com'' imgur_link then PyStr ''post''
      else PyInt (- 1))"

text \<open>
  The mathematical reading of "URL \<open>s\<close> contains the marker \<open>sub\<close>": \<open>sub\<close> occurs
  somewhere in \<open>s\<close> as a contiguous block.
\<close>

definition occurs_in :: "string \<Rightarrow> string \<Rightarrow> bool" where
  "occurs_in sub s = (\<exists>p q. s = p @ sub @ q)"

section \<open>The extension resolver\<close>

text \<open>
  \<^verbatim>\<open>
  def find_image_url_extension(imgur_url: str) -> str:
      match = re.search(r'\.([a-zA-Z0-9]+)(?:\?.*)?$', imgur_url)
      if match:
          return match.group(1)
      return 'jpeg'
  \<close>
  The regular expression is embedded piece by piece, with the backtracking of Python's
  \<^verbatim>\<open>re\<close> engine written out: \<^verbatim>\<open>re.search\<close> tries the start positions from the left;
  a greedy repetition tries the longest run first and then shorter ones; the optional group
  is tried before it is skipped. No flag is given, so \<^verbatim>\<open>.\<close> matches every character but
  the line feed, and \<^verbatim>\<open>$\<close> matches at the end of the string and just before a line
  feed that is the last character.
\<close>

definition line_feed :: char where
  "line_feed = CHR 0x0A"

text \<open>The character class \<^verbatim>\<open>[a-zA-Z0-9]\<close>, by code point ranges.\<close>

definition alnum :: "char \<Rightarrow> bool" where
  "alnum c = (let n = (of_char c :: nat) in
     (97 \<le> n \<and> n \<le> 122) \<or> (65 \<le> n \<and> n \<le> 90) \<or> (48 \<le> n \<and> n \<le> 57))"

text \<open>\<^verbatim>\<open>$\<close> at the position where \<open>r\<close> is what remains of the string.\<close>

definition at_end :: "string \<Rightarrow> bool" where
  "at_end r = (r = [] \<or> r = [line_feed])"

text \<open>\<^verbatim>\<open>.*$\<close>: the greedy run of characters other than the line feed, the longest first.\<close>

definition dot_star_end :: "string \<Rightarrow> bool" where
  "dot_star_end r =
     (let n = length (takeWhile (\<lambda>c. c \<noteq> line_feed) r)
      in list_ex (\<lambda>k. at_end (drop k r)) (rev [0..<Suc n]))"

text \<open>\<^verbatim>\<open>(?:\?.*)?$\<close>: the group first, then the match without it.\<close>

definition opt_query_end :: "string \<Rightarrow> bool" where
  "opt_query_end r =
     ((case r of [] \<Rightarrow> False | c # t \<Rightarrow> c = CHR ''?'' \<and> dot_star_end t) \<or> at_end r)"

text \<open>
  \<^verbatim>\<open>([a-zA-Z0-9]+)(?:\?.*)?$\<close>: group 1 is the first length, from the longest run
  of the class down to one character, after which the rest of the pattern matches.
\<close>

definition ext_group :: "string \<Rightarrow> string option" where
  "ext_group cs =
     (let n = length (takeWhile alnum cs)
      in map_option (\<lambda>k. take k cs)
           (find (\<lambda>k. opt_query_end (drop k cs)) (rev [1..<Suc n])))"

text \<open>The whole pattern anchored at the start of \<open>s\<close>; the result is group 1.\<close>

definition match_at :: "string \<Rightarrow> string option" where
  "match_at s = (case s of [] \<Rightarrow> None | c # cs \<Rightarrow> if c = CHR ''.'' then ext_group cs else None)"

text \<open>\<^verbatim>\<open>re.search\<close>: the first start position, from the left, with a match.\<close>

fun re_search_ext :: "string \<Rightarrow> string option" where
  "re_search_ext [] = match_at []"
| "re_search_ext (c # cs) =
     (case match_at (c # cs) of Some g \<Rightarrow> Some g | None \<Rightarrow> re_search_ext cs)"

definition find_image_url_extension :: "string \<Rightarrow> string" where
  "find_image_url_extension imgur_url =
     (case re_search_ext imgur_url of Some g \<Rightarrow> g | None \<Rightarrow> ''jpeg'')"

text \<open>
  The specification's words for the resolver: "a trailing dot-separated alphanumeric token
  before an optional query string". \<open>ext_split url pre tok q\<close> says that \<open>url\<close> is
  \<open>pre\<close>, a dot, the non-empty alphanumeric token \<open>tok\<close>, and then either nothing or a
  query string \<open>q\<close> (a question mark and whatever follows it).
\<close>

definition is_query :: "string \<Rightarrow> bool" where
  "is_query q = (case q of [] \<Rightarrow> True | c # r \<Rightarrow> c = CHR ''?'')"

definition ext_split :: "string \<Rightarrow> string \<Rightarrow> string \<Rightarrow> string \<Rightarrow> bool" where
  "ext_split url pre tok q =
     (url = pre @ ''.'' @ tok @ q \<and> tok \<noteq> [] \<and> list_all alnum tok \<and> is_query q)"

definition is_ext_token :: "string \<Rightarrow> string \<Rightarrow> bool" where
  "is_ext_token url tok = (\<exists>pre q. ext_split url pre tok q)"

section \<open>The world the downloader runs in\<close>

text \<open>
  An exception is the value of \<^verbatim>\<open>str(exception)\<close>, the only thing the code reads
  from it. A computation threads the world and either returns or raises; what it did to
  the world before raising stays done.
\<close>

datatype exn = Exception string

type_synonym bytes = "char list"

type_synonym pixel_data = "nat list list"

text \<open>
  A \<^verbatim>\<open>requests\<close> response: the status code, the \<^verbatim>\<open>Content-Type\<close> header when there
  is one, and \<^verbatim>\<open>response.content\<close>. With \<^verbatim>\<open>stream=True\<close> the body is read
  when \<^verbatim>\<open>content\<close> is first accessed, which can raise.
\<close>

record response =
  status_code :: int
  content_type_header :: "string option"
  content :: "exn + bytes"

text \<open>
  The collaborators outside the module, as parameters.
  \<^item> \<open>session_get\<close>: what the retrying session's \<^verbatim>\<open>get\<close> gives for a request it
    passes on to its adapters (the answer after the adapter's retries, or an exception);
    \<open>no_adapter_error\<close>: the exception \<^verbatim>\<open>requests\<close> raises for a URL that it rejects
    before any adapter is reached.
  \<^item> \<open>requests_get\<close>: the plain \<^verbatim>\<open>requests.get\<close> of the album resolver.
  \<^item> \<open>resolve\<close>: the directory entry a path string names; every spelling of a path
    (relative, dotted, through a symbolic link) resolves to the one entry it names.
  \<^item> \<open>open_wb_error\<close>, \<open>remove_error\<close>: whether \<^verbatim>\<open>open(path, 'wb')\<close> and
    \<^verbatim>\<open>os.remove(path)\<close> are refused (a missing folder, a permission).
  \<^item> \<open>image_open_error\<close>: whether \<^verbatim>\<open>Image.open(path)\<close> fails on a file with these
    bytes (it cannot be read or is not identified as an image); \<open>image_getdata\<close>: the
    decoding by \<^verbatim>\<open>getdata\<close>.
  \<^item> \<open>print_error\<close>: whether \<^verbatim>\<open>print\<close> of a line raises (an encoding error, a closed
    stream).
  \<^item> \<open>soup_find_og_image\<close>: the HTML parser's \<^verbatim>\<open>find('meta', property='og:image')\<close>,
    which gives the attributes of the first such element.
\<close>

record env =
  session_get :: "string option \<Rightarrow> exn + response"
  no_adapter_error :: "string option \<Rightarrow> exn"
  requests_get :: "string \<Rightarrow> exn + response"
  resolve :: "string \<Rightarrow> string"
  open_wb_error :: "string \<Rightarrow> exn option"
  remove_error :: "string \<Rightarrow> exn option"
  image_open_error :: "string \<Rightarrow> bytes \<Rightarrow> exn option"
  image_getdata :: "bytes \<Rightarrow> exn + pixel_data"
  print_error :: "string \<Rightarrow> exn option"
  soup_find_og_image :: "bytes \<Rightarrow> exn + (string \<rightharpoonup> string) option"

datatype request = Session_get "string option" | Requests_get string

text \<open>
  The world.
  \<^item> The file system: \<open>dir\<close> maps a directory entry (a resolved path) to the number of
    the file it names, \<open>inode\<close> gives each file's bytes, and \<open>next_inode\<close> is the number
    the next new file gets. Two entries can name one file (a hard link); removing an entry
    leaves the file to the other entries.
  \<^item> \<open>http_log\<close>: \<open>Session_get u\<close> for each request the retrying session of
    \<^verbatim>\<open>download_imgur_image\<close> has passed on to its mounted adapters, the only requests
    for which its transport can be invoked; \<open>Requests_get u\<close> for each call of the album
    resolver's \<^verbatim>\<open>requests.get\<close>.
  \<^item> \<open>stdout\<close>: the lines printed.
\<close>

record world =
  dir :: "string \<rightharpoonup> nat"
  inode :: "nat \<Rightarrow> bytes"
  next_inode :: nat
  http_log :: "request list"
  stdout :: "string list"

type_synonym 'a comp = "world \<Rightarrow> (exn + 'a) \<times> world"

definition ret :: "'a \<Rightarrow> 'a comp" where
  "ret a w = (Inr a, w)"

definition raise :: "exn \<Rightarrow> 'a comp" where
  "raise x w = (Inl x, w)"

definition then_do :: "'a comp \<Rightarrow> ('a \<Rightarrow> 'b comp) \<Rightarrow> 'b comp" where
  "then_do m f w = (case m w of (Inl x, w') \<Rightarrow> (Inl x, w') | (Inr a, w') \<Rightarrow> f a w')"

definition lift :: "exn + 'a \<Rightarrow> 'a comp" where
  "lift r = (case r of Inl x \<Rightarrow> raise x | Inr a \<Rightarrow> ret a)"

definition quoted :: "string \<Rightarrow> string" where
  "quoted s = [CHR 0x27] @ s @ [CHR 0x27]"

definition file_not_found :: "string \<Rightarrow> exn" where
  "file_not_found path = Exception (''[Errno 2] No such file or directory: '' @ quoted path)"

subsection \<open>The session and its adapters\<close>

text \<open>
  \<^verbatim>\<open>
  http = requests.Session()
  http.mount("https://", adapter)
  http.mount("http://", adapter)
  ...
  response = http.get(url, headers=headers, stream=True)
  \<close>
  The session has adapters for the two prefixes \<^verbatim>\<open>https://\<close> and \<^verbatim>\<open>http://\<close> only.
  Before a request reaches an adapter, \<^verbatim>\<open>requests\<close> turns the URL into a string
  (\<^verbatim>\<open>str(url)\<close>), strips leading whitespace, rejects a URL without a scheme
  (\<^verbatim>\<open>MissingSchema\<close>) or host, and then picks the adapter whose prefix the lower-cased
  URL starts with, raising \<^verbatim>\<open>InvalidSchema\<close> when there is none. So only a URL that,
  stripped and lower-cased, starts with a mounted prefix is passed on to an adapter; for
  every other URL \<^verbatim>\<open>http.get\<close> raises without the transport being invoked.
\<close>

definition py_str :: "string option \<Rightarrow> string" where
  "py_str url = (case url of None \<Rightarrow> ''None'' | Some u \<Rightarrow> u)"

text \<open>\<^verbatim>\<open>str.isspace\<close> on one character (code points below 256).\<close>

definition py_isspace :: "char \<Rightarrow> bool" where
  "py_isspace c = (let n = (of_char c :: nat) in
     (9 \<le> n \<and> n \<le> 13) \<or> (28 \<le> n \<and> n \<le> 32) \<or> n = 133 \<or> n = 160)"

definition lstrip :: "string \<Rightarrow> string" where
  "lstrip s = dropWhile py_isspace s"

text \<open>
  \<^verbatim>\<open>str.lower\<close> on the letters that matter for the comparison with the two ASCII
  prefixes.
\<close>

definition ascii_lower :: "char \<Rightarrow> char" where
  "ascii_lower c = (let n = (of_char c :: nat) in
     if 65 \<le> n \<and> n \<le> 90 then char_of (n + 32) else c)"

definition adapter_mounted_for :: "string option \<Rightarrow> bool" where
  "adapter_mounted_for url =
     (let u = map ascii_lower (lstrip (py_str url))
      in startswith u ''https://'' \<or> startswith u ''http://'')"

text \<open>\<^verbatim>\<open>http.get(url, headers=headers, stream=True)\<close>\<close>

definition http_get :: "env \<Rightarrow> string option \<Rightarrow> response comp" where
  "http_get e url w =
     (if adapter_mounted_for url
      then lift (session_get e url) (w\<lparr>http_log := http_log w @ [Session_get url]\<rparr>)
      else raise (no_adapter_error e url) w)"

text \<open>\<^verbatim>\<open>requests.get(album_url, headers=headers)\<close>\<close>

definition plain_get :: "env \<Rightarrow> string \<Rightarrow> response comp" where
  "plain_get e url w = lift (requests_get e url) (w\<lparr>http_log := http_log w @ [Requests_get url]\<rparr>)"

subsection \<open>Files\<close>

text \<open>The bytes of the file a path names, when it names one.\<close>

definition file_at :: "env \<Rightarrow> world \<Rightarrow> string \<Rightarrow> bytes option" where
  "file_at e w path = map_option (inode w) (dir w (resolve e path))"

text \<open>
  \<^verbatim>\<open>open(filepath, 'wb')\<close> truncates the file the path names, or creates an empty one
  and its entry; the result is the open file.
\<close>

definition open_wb :: "env \<Rightarrow> string \<Rightarrow> nat comp" where
  "open_wb e filepath w =
     (case open_wb_error e filepath of
        Some x \<Rightarrow> raise x w
      | None \<Rightarrow>
          (case dir w (resolve e filepath) of
             Some i \<Rightarrow> ret i (w\<lparr>inode := (inode w)(i := [])\<rparr>)
           | None \<Rightarrow>
               ret (next_inode w)
                 (w\<lparr>dir := (dir w)(resolve e filepath \<mapsto> next_inode w),
                    inode := (inode w)(next_inode w := []),
                    next_inode := Suc (next_inode w)\<rparr>)))"

text \<open>
  \<^verbatim>\<open>out_file.write(response.content)\<close> on the file just opened: the argument is
  evaluated first, and the file is closed when the \<^verbatim>\<open>with\<close> block is left.
\<close>

definition write_content :: "nat \<Rightarrow> response \<Rightarrow> unit comp" where
  "write_content out_file r w =
     (case content r of
        Inl x \<Rightarrow> raise x w
      | Inr body \<Rightarrow> ret () (w\<lparr>inode := (inode w)(out_file := body)\<rparr>))"


text \<open>\<^verbatim>\<open>Image.open(path)\<close>: the image is the file's bytes, decoded later.\<close>

definition image_open :: "env \<Rightarrow> string \<Rightarrow> bytes comp" where
  "image_open e path w =
     (case file_at e w path of
        None \<Rightarrow> raise (file_not_found path) w
      | Some b \<Rightarrow> (case image_open_error e path b of Some x \<Rightarrow> raise x w | None \<Rightarrow> ret b w))"

text \<open>\<^verbatim>\<open>list(image.getdata())\<close>\<close>

definition getdata :: "env \<Rightarrow> bytes \<Rightarrow> pixel_data comp" where
  "getdata e img = lift (image_getdata e img)"

text \<open>\<^verbatim>\<open>os.remove(path)\<close> removes the entry the path names.\<close>

definition os_remove :: "env \<Rightarrow> string \<Rightarrow> unit comp" where
  "os_remove e path w =
     (case remove_error e path of
        Some x \<Rightarrow> raise x w
      | None \<Rightarrow>
          (case dir w (resolve e path) of
             None \<Rightarrow> raise (file_not_found path) w
           | Some i \<Rightarrow> ret () (w\<lparr>dir := (dir w)(resolve e path := None)\<rparr>)))"

text \<open>
  \<^verbatim>\<open>os.path.join(a, b)\<close> of \<^verbatim>\<open>posixpath\<close>: an absolute \<open>b\<close> replaces \<open>a\<close>; an
  empty \<open>a\<close> or one that ends with the separator takes \<open>b\<close> as it is; otherwise a separator
  comes between them.
\<close>

definition os_path_join :: "string \<Rightarrow> string \<Rightarrow> string" where
  "os_path_join a b =
     (if startswith b ''/'' then b
      else if a = [] \<or> last a = CHR ''/'' then a @ b
      else a @ ''/'' @ b)"

text \<open>Decimal digits of an integer, as an f-string formats \<^verbatim>\<open>response.status_code\<close>.\<close>

fun str_of_nat :: "nat \<Rightarrow> string" where
  "str_of_nat n =
     (if n < 10 then [char_of (48 + n)] else str_of_nat (n div 10) @ [char_of (48 + n mod 10)])"

declare str_of_nat.simps [simp del]

definition str_of_int :: "int \<Rightarrow> string" where
  "str_of_int i = (if i < 0 then CHR ''-'' # str_of_nat (nat (- i)) else str_of_nat (nat i))"

section \<open>The direct fetcher\<close>

text \<open>
  \<^verbatim>\<open>find_image_url_extension(url)\<close> where \<open>url\<close> may be \<^verbatim>\<open>None\<close> (the album resolver
  can pass it): \<^verbatim>\<open>re.search\<close> raises a \<^verbatim>\<open>TypeError\<close> on it.
\<close>

definition re_type_error :: exn where
  "re_type_error = Exception (''expected string or bytes-like object, got '' @ quoted ''NoneType'')"

definition extension_of_arg :: "string option \<Rightarrow> string comp" where
  "extension_of_arg url =
     (case url of None \<Rightarrow> raise re_type_error | Some u \<Rightarrow> ret (find_image_url_extension u))"

text \<open>\<^verbatim>\<open>response.headers.get('Content-Type', '')\<close>\<close>

definition header_or :: "string option \<Rightarrow> string \<Rightarrow> string" where
  "header_or h d = (case h of None \<Rightarrow> d | Some v \<Rightarrow> v)"

definition placeholder_path :: string where
  "placeholder_path = ''imgur_placeholder.jpg''"

text \<open>
  The body of the \<^verbatim>\<open>try\<close> block of \<^verbatim>\<open>download_imgur_image\<close> (lines 85 to 107); its
  result is the value \<^verbatim>\<open>status\<close> has when the block ends normally.
  \<^verbatim>\<open>
  response = http.get(url, headers=headers, stream=True)
  if response.status_code == 200:
      content_type = response.headers.get('Content-Type', '')
      if 'image' in content_type:
          status = 'success'
          extension = find_image_url_extension(url)
          filename = f"{image_id}.{extension}"
          filepath = os.path.join(download_folder, filename)
          with open(filepath, 'wb') as out_file:
              out_file.write(response.content)
          downloaded_image = Image.open(filepath)
          placeholder_image = Image.open('imgur_placeholder.jpg')
          if list(downloaded_image.getdata()) == list(placeholder_image.getdata()):
              os.remove(filepath)
              status = 'Failure: Placeholder image downloaded'
      else:
          status = 'Failure: Not an image'
  else:
      status = f"Error {response.status_code}"
  \<close>
\<close>

definition target_path :: "string \<Rightarrow> string \<Rightarrow> string \<Rightarrow> string" where
  "target_path download_folder image_id extension =
     os_path_join download_folder (image_id @ ''.'' @ extension)"

definition check_placeholder :: "env \<Rightarrow> string \<Rightarrow> string comp" where
  "check_placeholder e filepath =
     then_do (image_open e filepath) (\<lambda>downloaded_image.
     then_do (image_open e placeholder_path) (\<lambda>placeholder_image.
     then_do (getdata e downloaded_image) (\<lambda>downloaded_data.
     then_do (getdata e placeholder_image) (\<lambda>placeholder_data.
       if downloaded_data = placeholder_data
       then then_do (os_remove e filepath) (\<lambda>_. ret ''Failure: Placeholder image downloaded'')
       else ret ''success''))))"

definition try_body :: "env \<Rightarrow> string option \<Rightarrow> string \<Rightarrow> string \<Rightarrow> string comp" where
  "try_body e url image_id download_folder =
     then_do (http_get e url) (\<lambda>response.
       if status_code response = 200 then
         (let content_type = header_or (content_type_header response) [] in
          if str_contains ''image'' content_type then
            then_do (extension_of_arg url) (\<lambda>extension.
              let filepath = target_path download_folder image_id extension in
              then_do (open_wb e filepath) (\<lambda>out_file.
              then_do (write_content out_file response) (\<lambda>_.
                check_placeholder e filepath)))
          else ret ''Failure: Not an image'')
       else ret (''Error '' @ str_of_int (status_code response)))"

text \<open>
  \<^verbatim>\<open>
  try: ...
  except Exception as exception:
      status = 'Failure: ' + str(exception)
  if url == 'unrecovered':
      status = 'URL wasnt recovered'
  if verbose:
      print(image_id, status)
  return status
  \<close>
  The \<^verbatim>\<open>print\<close> stands after the \<^verbatim>\<open>try\<close> statement: an exception it raises leaves
  the function.
\<close>

definition print_status :: "env \<Rightarrow> bool \<Rightarrow> string \<Rightarrow> string \<Rightarrow> unit comp" where
  "print_status e verbose image_id status w =
     (if verbose then
        (case print_error e (image_id @ '' '' @ status) of
           Some x \<Rightarrow> raise x w
         | None \<Rightarrow> ret () (w\<lparr>stdout := stdout w @ [image_id @ '' '' @ status]\<rparr>))
      else ret () w)"

definition status_of :: "string option \<Rightarrow> exn + string \<Rightarrow> string" where
  "status_of url r =
     (let status = (case r of Inl (Exception msg) \<Rightarrow> ''Failure: '' @ msg | Inr s \<Rightarrow> s)
      in if url = Some ''unrecovered'' then ''URL wasnt recovered'' else status)"

definition download_imgur_image ::
  "env \<Rightarrow> string option \<Rightarrow> string \<Rightarrow> string \<Rightarrow> bool \<Rightarrow> string comp" where
  "download_imgur_image e url image_id download_folder verbose w =
     (case try_body e url image_id download_folder w of (r, w1) \<Rightarrow>
        let status = status_of url r
        in then_do (print_status e verbose image_id status) (\<lambda>_. ret status) w1)"



section \<open>The post resolver\<close>

text \<open>
  \<^verbatim>\<open>re.sub(pattern, repl, s, count=1)\<close> for a pattern that is a literal string: the
  leftmost occurrence is replaced.
\<close>

fun replace_first :: "string \<Rightarrow> string \<Rightarrow> string \<Rightarrow> string" where
  "replace_first old new [] = (if old = [] then new else [])"
| "replace_first old new (c # s) =
     (if startswith (c # s) old then new @ drop (length old) (c # s)
      else c # replace_first old new s)"

text \<open>
  \<^verbatim>\<open>
  pattern = r'://imgur\.'
  if re.search(pattern, url):
      image_url = re.sub(pattern, '://i.imgur.', url, count=1)
      attempt = download_imgur_image(image_url + '.jpeg', image_id, download_folder, verbose=verbose)
      return attempt
  return 'failed_to_convert_to_image_url'
  \<close>
  The pattern matches exactly the literal \<^verbatim>\<open>://imgur.\<close>.
\<close>

definition download_imgur_post :: "env \<Rightarrow> string \<Rightarrow> string \<Rightarrow> string \<Rightarrow> bool \<Rightarrow> string comp" where
  "download_imgur_post e url image_id download_folder verbose =
     (if str_contains ''://imgur.'' url then
        (let image_url = replace_first ''://imgur.'' ''://i.imgur.'' url
         in download_imgur_image e (Some (image_url @ ''.jpeg'')) image_id download_folder verbose)
      else ret ''failed_to_convert_to_image_url'')"

section \<open>The album resolver\<close>

text \<open>\<^verbatim>\<open>s.split(sep)\<close> for a separator of one character.\<close>

fun str_split :: "char \<Rightarrow> string \<Rightarrow> string list" where
  "str_split sep [] = [[]]"
| "str_split sep (c # s) =
     (if c = sep then [] # str_split sep s
      else (case str_split sep s of [] \<Rightarrow> [[c]] | x # xs \<Rightarrow> (c # x) # xs))"

definition index_error :: exn where
  "index_error = Exception ''list index out of range''"

definition none_split_error :: exn where
  "none_split_error =
     Exception (quoted ''NoneType'' @ '' object has no attribute '' @ quoted ''split'')"

text \<open>
  \<^verbatim>\<open>meta_tag.get('content', None).split('?')[0]\<close>: the attribute lookup gives
  \<^verbatim>\<open>None\<close> when the element has no such attribute, and \<^verbatim>\<open>None\<close> has no
  \<^verbatim>\<open>split\<close>.
\<close>

definition content_before_query :: "(string \<rightharpoonup> string) \<Rightarrow> string comp" where
  "content_before_query meta_tag =
     (case meta_tag ''content'' of
        None \<Rightarrow> raise none_split_error
      | Some c \<Rightarrow> (case str_split CHR ''?'' c of [] \<Rightarrow> raise index_error | x # xs \<Rightarrow> ret x))"

text \<open>
  \<^verbatim>\<open>
  response = requests.get(album_url, headers=headers)
  if response.status_code != 200:
      return None
  soup = BeautifulSoup(response.content, 'html.parser')
  meta_tag = soup.find('meta', property='og:image')
  if meta_tag is None:
      return 'unrecovered'
  image_url = meta_tag.get('content', None).split('?')[0]
  if str(image_url)=='':
      image_url = 'unrecovered'
  return image_url
  \<close>
\<close>

definition get_imgur_album_info :: "env \<Rightarrow> string \<Rightarrow> string option comp" where
  "get_imgur_album_info e album_url =
     then_do (plain_get e album_url) (\<lambda>response.
       if status_code response \<noteq> 200 then ret None
       else
         then_do (lift (content response)) (\<lambda>html.
         then_do (lift (soup_find_og_image e html)) (\<lambda>found.
           case found of
             None \<Rightarrow> ret (Some ''unrecovered'')
           | Some meta_tag \<Rightarrow>
               then_do (content_before_query meta_tag) (\<lambda>image_url.
                 ret (Some (if image_url = [] then ''unrecovered'' else image_url))))))"

text \<open>
  \<^verbatim>\<open>
  url_to_download = get_imgur_album_info(url)
  attempt = download_imgur_image(url_to_download , image_id, download_folder, verbose=verbose)
  return attempt
  \<close>
\<close>

definition download_imgur_album :: "env \<Rightarrow> string \<Rightarrow> string \<Rightarrow> string \<Rightarrow> bool \<Rightarrow> string comp" where
  "download_imgur_album e url image_id download_folder verbose =
     then_do (get_imgur_album_info e url) (\<lambda>url_to_download.
       download_imgur_image e url_to_download image_id download_folder verbose)"

section \<open>A concrete environment\<close>

text \<open>
  A small world to run the functions in: a handful of URLs with fixed answers, a codec that
  knows three images, a folder \<^verbatim>\<open>nowhere\<close> that does not exist, and a working directory
  that holds the placeholder asset.
\<close>

definition ok_response :: "string \<Rightarrow> bytes \<Rightarrow> response" where
  "ok_response ctype body =
     \<lparr>status_code = 200, content_type_header = Some ctype, content = Inr body\<rparr>"

definition not_found_response :: response where
  "not_found_response =
     \<lparr>status_code = 404, content_type_header = Some ''text/html'', content = Inr []\<rparr>"

definition demo_session_get :: "string option \<Rightarrow> exn + response" where
  "demo_session_get url =
     (if url = Some ''https://i.imgur.com/abc.png'' then Inr (ok_response ''image/png'' ''PNGDATA'')
      else if url = Some ''https://i.imgur.com/abc.jpg''
        then Inr (ok_response ''image/jpeg'' ''JPGDATA'')
      else if url = Some ''https://i.imgur.com/gone.jpg''
        then Inr (ok_response ''image/jpeg'' ''PLACEHOLDER'')
      else if url = Some ''https://i.imgur.com/broken.png''
        then Inr (ok_response ''image/png'' ''garbage'')
      else if url = Some ''https://i.imgur.com/page.png''
        then Inr (ok_response ''text/html'' ''<html></html>'')
      else if url = Some ''https://i.imgur.com/missing.png'' then Inr not_found_response
      else Inl (Exception ''Connection refused''))"

definition demo_requests_get :: "string \<Rightarrow> exn + response" where
  "demo_requests_get url =
     (if url = ''https://imgur.com/a/ok'' then Inr (ok_response ''text/html'' ''PAGE_OK'')
      else if url = ''https://imgur.com/a/nometa''
        then Inr (ok_response ''text/html'' ''PAGE_NOMETA'')
      else if url = ''https://imgur.com/a/empty''
        then Inr (ok_response ''text/html'' ''PAGE_EMPTY'')
      else if url = ''https://imgur.com/a/nocontent''
        then Inr (ok_response ''text/html'' ''PAGE_NOCONTENT'')
      else if url = ''https://imgur.com/a/gone'' then Inr not_found_response
      else Inl (Exception ''Connection refused''))"

definition demo_soup_find :: "bytes \<Rightarrow> exn + (string \<rightharpoonup> string) option" where
  "demo_soup_find html =
     (if html = ''PAGE_OK''
        then Inr (Some [''property'' \<mapsto> ''og:image'',
                        ''content'' \<mapsto> ''https://i.imgur.com/abc.png?fb''])
      else if html = ''PAGE_EMPTY''
        then Inr (Some [''property'' \<mapsto> ''og:image'', ''content'' \<mapsto> ''?fb''])
      else if html = ''PAGE_NOCONTENT'' then Inr (Some [''property'' \<mapsto> ''og:image''])
      else Inr None)"

text \<open>A path with a leading \<^verbatim>\<open>./\<close> names the same entry as the path without it.\<close>

definition demo_resolve :: "string \<Rightarrow> string" where
  "demo_resolve path = (if startswith path ''./'' then drop 2 path else path)"

definition demo_env :: env where
  "demo_env =
     \<lparr>session_get = demo_session_get,
      no_adapter_error = (\<lambda>url. Exception ''Invalid URL: No scheme supplied''),
      requests_get = demo_requests_get,
      resolve = demo_resolve,
      open_wb_error =
        (\<lambda>path. if startswith path ''nowhere/'' then Some (file_not_found path) else None),
      remove_error = (\<lambda>path. None),
      image_open_error =
        (\<lambda>path b. if b = ''PNGDATA'' \<or> b = ''JPGDATA'' \<or> b = ''PLACEHOLDER'' then None
              else Some (Exception ''cannot identify image file'')),
      image_getdata =
        (\<lambda>b. if b = ''PNGDATA'' then Inr [[255, 0, 0], [0, 255, 0]]
              else if b = ''JPGDATA'' then Inr [[1, 2, 3]]
              else if b = ''PLACEHOLDER'' then Inr [[7, 7, 7]]
              else Inl (Exception ''image file is truncated'')),
      print_error = (\<lambda>line. None),
      soup_find_og_image = demo_soup_find\<rparr>"

definition demo_world :: world where
  "demo_world =
     \<lparr>dir = [placeholder_path \<mapsto> 0], inode = (\<lambda>i. if i = 0 then ''PLACEHOLDER'' else []),
      next_inode = 1, http_log = [], stdout = []\<rparr>"

section \<open>Facts about the string primitives\<close>

lemma startswith_iff: "startswith s sub = (\<exists>q. s = sub @ q)"
  by (induction s sub rule: startswith.induct) auto

lemma str_contains_iff: "str_contains sub s = occurs_in sub s"
proof (induction s)
  case Nil
  show ?case by (auto simp: occurs_in_def)
next
  case (Cons c s)
  note IH = Cons.IH
  show ?case
  proof
    assume "str_contains sub (c # s)"
    then consider "startswith (c # s) sub" | "str_contains sub s" by auto
    then show "occurs_in sub (c # s)"
    proof cases
      case 1
      then obtain q where "c # s = sub @ q" by (auto simp: startswith_iff)
      then have "c # s = [] @ sub @ q" by simp
      then show ?thesis unfolding occurs_in_def by blast
    next
      case 2
      then obtain p q where "s = p @ sub @ q" using IH by (auto simp: occurs_in_def)
      then have "c # s = (c # p) @ sub @ q" by simp
      then show ?thesis unfolding occurs_in_def by blast
    qed
  next
    assume "occurs_in sub (c # s)"
    then obtain p q where pq: "c # s = p @ sub @ q" by (auto simp: occurs_in_def)
    show "str_contains sub (c # s)"
    proof (cases p)
      case Nil
      with pq have "startswith (c # s) sub" by (auto simp: startswith_iff)
      then show ?thesis by simp
    next
      case (Cons a p')
      with pq have "s = p' @ sub @ q" by simp
      then have "occurs_in sub s" unfolding occurs_in_def by blast
      then show ?thesis using IH by simp
    qed
  qed
qed

section \<open>The classifier's rules\<close>

lemma clasify_url_cases:
  "clasify_url u =
     (if occurs_in ''i.imgur.com'' u then PyStr ''image''
      else if occurs_in ''/a/'' u \<or> occurs_in ''/gallery/'' u then PyStr ''album''
      else if occurs_in ''imgur.com'' u then PyStr ''post''
      else PyInt (- 1))"
  by (simp add: clasify_url_def str_contains_iff)

text \<open>
  Claim C3, as the code has it: a URL that contains an album or gallery segment classifies
  as album when the CDN marker \<^verbatim>\<open>i.imgur.com\<close> does not occur in it; when the marker
  occurs anywhere in it, the first rule wins and the result is the direct-image label.
\<close>

theorem clasify_url_album_segment:
  assumes "occurs_in ''/a/'' u \<or> occurs_in ''/gallery/'' u"
  shows "clasify_url u = (if occurs_in ''i.imgur.com'' u then PyStr ''image'' else PyStr ''album'')"
  using assms by (simp add: clasify_url_cases)

theorem clasify_url_album_segment_witness:
  "str_contains ''/gallery/'' ''https://imgur.com/gallery/xyz''
   \<and> clasify_url ''https://imgur.com/gallery/xyz'' = PyStr ''album''"
proof -
  have seg: "occurs_in ''/a/'' ''https://imgur.com/gallery/xyz''
      \<or> occurs_in ''/gallery/'' ''https://imgur.com/gallery/xyz''"
    unfolding str_contains_iff [symmetric] by simp
  have "\<not> occurs_in ''i.imgur.com'' ''https://imgur.com/gallery/xyz''"
    unfolding str_contains_iff [symmetric] by simp
  with clasify_url_album_segment [OF seg] show ?thesis by simp
qed

text \<open>
  The claim as stated fails: an album URL that carries the CDN marker as a decoy in its
  query string classifies as a direct image, not as an album.
\<close>

theorem clasify_url_album_decoy_counterexample:
  "str_contains ''/a/'' ''https://imgur.com/a/xyz?ref=i.imgur.com''
   \<and> clasify_url ''https://imgur.com/a/xyz?ref=i.imgur.com'' = PyStr ''image''
   \<and> clasify_url ''https://imgur.com/a/xyz?ref=i.imgur.com'' \<noteq> PyStr ''album''"
  by (simp add: clasify_url_def)

text \<open>
  Claim C6: the classifier is a total function of the URL alone, and its rules apply in
  this order, the first match winning: the CDN marker gives the direct-image label;
  otherwise an album or gallery segment gives album; otherwise the generic domain gives
  post; otherwise the result is the unclassified value.
\<close>

theorem clasify_url_priority:
  "(occurs_in ''i.imgur.com'' u \<longrightarrow> clasify_url u = PyStr ''image'')
   \<and> (\<not> occurs_in ''i.imgur.com'' u \<and> (occurs_in ''/a/'' u \<or> occurs_in ''/gallery/'' u)
        \<longrightarrow> clasify_url u = PyStr ''album'')
   \<and> (\<not> occurs_in ''i.imgur.com'' u \<and> \<not> occurs_in ''/a/'' u \<and> \<not> occurs_in ''/gallery/'' u
        \<and> occurs_in ''imgur.com'' u \<longrightarrow> clasify_url u = PyStr ''post'')
   \<and> (\<not> occurs_in ''i.imgur.com'' u \<and> \<not> occurs_in ''/a/'' u \<and> \<not> occurs_in ''/gallery/'' u
        \<and> \<not> occurs_in ''imgur.com'' u \<longrightarrow> clasify_url u = PyInt (- 1))"
  by (simp add: clasify_url_cases)

theorem clasify_url_priority_witness:
  "clasify_url ''https://i.imgur.com/gallery/abc.png'' = PyStr ''image''
   \<and> clasify_url ''https://imgur.com/a/xyz'' = PyStr ''album''
   \<and> clasify_url ''https://imgur.com/xyz'' = PyStr ''post''
   \<and> clasify_url ''https://example.org/xyz'' = PyInt (- 1)"
proof -
  have a: "occurs_in ''i.imgur.com'' ''https://i.imgur.com/gallery/abc.png''"
    unfolding str_contains_iff [symmetric] by simp
  have b: "\<not> occurs_in ''i.imgur.com'' ''https://imgur.com/a/xyz''
      \<and> (occurs_in ''/a/'' ''https://imgur.com/a/xyz''
           \<or> occurs_in ''/gallery/'' ''https://imgur.com/a/xyz'')"
    unfolding str_contains_iff [symmetric] by simp
  have c: "\<not> occurs_in ''i.imgur.com'' ''https://imgur.com/xyz''
      \<and> \<not> occurs_in ''/a/'' ''https://imgur.com/xyz''
      \<and> \<not> occurs_in ''/gallery/'' ''https://imgur.com/xyz''
      \<and> occurs_in ''imgur.com'' ''https://imgur.com/xyz''"
    unfolding str_contains_iff [symmetric] by simp
  have d: "\<not> occurs_in ''i.imgur.com'' ''https://example.org/xyz''
      \<and> \<not> occurs_in ''/a/'' ''https://example.org/xyz''
      \<and> \<not> occurs_in ''/gallery/'' ''https://example.org/xyz''
      \<and> \<not> occurs_in ''imgur.com'' ''https://example.org/xyz''"
    unfolding str_contains_iff [symmetric] by simp
  from a clasify_url_priority [of "''https://i.imgur.com/gallery/abc.png''"]
  have 1: "clasify_url ''https://i.imgur.com/gallery/abc.png'' = PyStr ''image''" by blast
  from b clasify_url_priority [of "''https://imgur.com/a/xyz''"]
  have 2: "clasify_url ''https://imgur.com/a/xyz'' = PyStr ''album''" by blast
  from c clasify_url_priority [of "''https://imgur.com/xyz''"]
  have 3: "clasify_url ''https://imgur.com/xyz'' = PyStr ''post''" by blast
  from d clasify_url_priority [of "''https://example.org/xyz''"]
  have 4: "clasify_url ''https://example.org/xyz'' = PyInt (- 1)" by blast
  from 1 2 3 4 show ?thesis by blast
qed

text \<open>
  Claim C10: on a URL that matches none of the three rules the classifier returns the
  integer \<open>-1\<close>, which is no string label: comparing the result with any string fails.
\<close>

theorem clasify_url_unclassified_is_int:
  assumes "\<not> occurs_in ''i.imgur.com'' u" and "\<not> occurs_in ''/a/'' u"
    and "\<not> occurs_in ''/gallery/'' u" and "\<not> occurs_in ''imgur.com'' u"
  shows "clasify_url u = PyInt (- 1) \<and> (\<forall>label. clasify_url u \<noteq> PyStr label)"
  using assms by (simp add: clasify_url_cases)

theorem clasify_url_unclassified_is_int_witness:
  "clasify_url ''https://example.org/pic.png'' = PyInt (- 1)
   \<and> (\<forall>label. clasify_url ''https://example.org/pic.png'' \<noteq> PyStr label)"
proof -
  have 1: "\<not> occurs_in ''i.imgur.com'' ''https://example.org/pic.png''"
    unfolding str_contains_iff [symmetric] by simp
  have 2: "\<not> occurs_in ''/a/'' ''https://example.org/pic.png''"
    unfolding str_contains_iff [symmetric] by simp
  have 3: "\<not> occurs_in ''/gallery/'' ''https://example.org/pic.png''"
    unfolding str_contains_iff [symmetric] by simp
  have 4: "\<not> occurs_in ''imgur.com'' ''https://example.org/pic.png''"
    unfolding str_contains_iff [symmetric] by simp
  show ?thesis by (rule clasify_url_unclassified_is_int [OF 1 2 3 4])
qed

section \<open>The direct fetcher: requests issued and the sentinel\<close>

lemmas comp_defs = then_do_def ret_def raise_def lift_def

lemmas io_defs = http_get_def extension_of_arg_def open_wb_def write_content_def image_open_def
  getdata_def os_remove_def

lemma check_placeholder_log: "http_log (snd (check_placeholder e p w)) = http_log w"
  by (simp add: check_placeholder_def comp_defs image_open_def getdata_def os_remove_def
      split: sum.splits option.splits prod.splits)

lemma try_body_log:
  "http_log (snd (try_body e url image_id folder w))
     = (if adapter_mounted_for url then http_log w @ [Session_get url] else http_log w)"
  by (simp add: try_body_def comp_defs http_get_def extension_of_arg_def open_wb_def
      write_content_def check_placeholder_log Let_def
      split: sum.splits option.splits prod.splits)


lemma download_imgur_image_eq:
  "download_imgur_image e url image_id folder verbose w =
     then_do (print_status e verbose image_id (status_of url (fst (try_body e url image_id folder w))))
       (\<lambda>_. ret (status_of url (fst (try_body e url image_id folder w))))
       (snd (try_body e url image_id folder w))"
  by (simp add: download_imgur_image_def Let_def split: prod.splits)










section \<open>The post resolver\<close>

lemma not_startswith_occurs:
  assumes "\<not> startswith (c # s) old" and "c # s = p @ old @ q"
  shows "\<exists>p'. p = c # p' \<and> s = p' @ old @ q"
proof (cases p)
  case Nil
  with assms(2) have "startswith (c # s) old" by (auto simp: startswith_iff)
  with assms(1) show ?thesis by simp
next
  case (Cons a p')
  with assms(2) show ?thesis by simp
qed

lemma replace_first_leftmost:
  assumes "occurs_in old s"
  shows "\<exists>p q. s = p @ old @ q
           \<and> (\<forall>p' q'. s = p' @ old @ q' \<longrightarrow> length p \<le> length p')
           \<and> replace_first old new s = p @ new @ q"
  using assms
proof (induction s)
  case Nil
  then have "old = []" by (simp add: occurs_in_def)
  then show ?case by simp
next
  case (Cons c s)
  show ?case
  proof (cases "startswith (c # s) old")
    case True
    then obtain q where q: "c # s = old @ q" by (auto simp: startswith_iff)
    then have "drop (length old) (c # s) = q" by simp
    with True have "replace_first old new (c # s) = [] @ new @ q" by simp
    moreover from q have "c # s = [] @ old @ q" by simp
    ultimately show ?thesis by (metis le0 list.size(3))
  next
    case False
    obtain p0 q0 where "c # s = p0 @ old @ q0"
      using Cons.prems by (auto simp: occurs_in_def)
    with False obtain p1 where "s = p1 @ old @ q0"
      using not_startswith_occurs by blast
    then have "occurs_in old s" unfolding occurs_in_def by blast
    with Cons.IH obtain p q where pq: "s = p @ old @ q"
      and least: "\<forall>p' q'. s = p' @ old @ q' \<longrightarrow> length p \<le> length p'"
      and repl: "replace_first old new s = p @ new @ q" by blast
    have 1: "c # s = (c # p) @ old @ q" using pq by simp
    have 2: "\<forall>p' q'. c # s = p' @ old @ q' \<longrightarrow> length (c # p) \<le> length p'"
    proof (intro allI impI)
      fix p' q' assume "c # s = p' @ old @ q'"
      with False obtain p2 where "p' = c # p2" and "s = p2 @ old @ q'"
        using not_startswith_occurs by blast
      with least show "length (c # p) \<le> length p'" by simp
    qed
    have 3: "replace_first old new (c # s) = (c # p) @ new @ q"
      using False repl by simp
    from 1 2 3 show ?thesis by blast
  qed
qed

text \<open>
  Claim C7: when the URL contains \<^verbatim>\<open>://imgur.\<close>, the post resolver replaces the first
  occurrence by \<^verbatim>\<open>://i.imgur.\<close>, appends \<^verbatim>\<open>.jpeg\<close>, and returns what the direct
  fetcher returns on that URL; when it does not, the resolver returns
  \<^verbatim>\<open>failed_to_convert_to_image_url\<close> and leaves the world as it was, so no request
  is issued.
\<close>

theorem download_imgur_post_rewrite:
  "(occurs_in ''://imgur.'' url \<longrightarrow>
      download_imgur_post e url image_id folder verbose w
        = download_imgur_image e
            (Some (replace_first ''://imgur.'' ''://i.imgur.'' url @ ''.jpeg''))
            image_id folder verbose w
      \<and> (\<exists>p q. url = p @ ''://imgur.'' @ q
            \<and> (\<forall>p' q'. url = p' @ ''://imgur.'' @ q' \<longrightarrow> length p \<le> length p')
            \<and> replace_first ''://imgur.'' ''://i.imgur.'' url = p @ ''://i.imgur.'' @ q))
   \<and> (\<not> occurs_in ''://imgur.'' url \<longrightarrow>
      download_imgur_post e url image_id folder verbose w
        = (Inr ''failed_to_convert_to_image_url'', w))"
proof (intro conjI impI)
  assume "occurs_in ''://imgur.'' url"
  then show "download_imgur_post e url image_id folder verbose w
      = download_imgur_image e
          (Some (replace_first ''://imgur.'' ''://i.imgur.'' url @ ''.jpeg''))
          image_id folder verbose w"
    by (simp add: download_imgur_post_def str_contains_iff)
next
  assume "occurs_in ''://imgur.'' url"
  then show "\<exists>p q. url = p @ ''://imgur.'' @ q
      \<and> (\<forall>p' q'. url = p' @ ''://imgur.'' @ q' \<longrightarrow> length p \<le> length p')
      \<and> replace_first ''://imgur.'' ''://i.imgur.'' url = p @ ''://i.imgur.'' @ q"
    by (rule replace_first_leftmost)
next
  assume "\<not> occurs_in ''://imgur.'' url"
  then show "download_imgur_post e url image_id folder verbose w
      = (Inr ''failed_to_convert_to_image_url'', w)"
    by (simp add: download_imgur_post_def str_contains_iff ret_def)
qed

theorem download_imgur_post_rewrite_witness:
  "download_imgur_post demo_env ''https://imgur.com/xyz'' ''id1'' ''out'' False demo_world
     = download_imgur_image demo_env (Some ''https://i.imgur.com/xyz.jpeg'') ''id1'' ''out'' False
         demo_world
   \<and> download_imgur_post demo_env ''https://example.org/xyz'' ''id1'' ''out'' False demo_world
     = (Inr ''failed_to_convert_to_image_url'', demo_world)"
proof -
  have yes: "occurs_in ''://imgur.'' ''https://imgur.com/xyz''"
    unfolding str_contains_iff [symmetric] by simp
  have no: "\<not> occurs_in ''://imgur.'' ''https://example.org/xyz''"
    unfolding str_contains_iff [symmetric] by simp
  have rw: "replace_first ''://imgur.'' ''://i.imgur.'' ''https://imgur.com/xyz'' @ ''.jpeg''
      = ''https://i.imgur.com/xyz.jpeg''"
    by simp
  from yes download_imgur_post_rewrite
    [of "''https://imgur.com/xyz''" demo_env "''id1''" "''out''" False demo_world]
  have 1: "download_imgur_post demo_env ''https://imgur.com/xyz'' ''id1'' ''out'' False demo_world
     = download_imgur_image demo_env
         (Some (replace_first ''://imgur.'' ''://i.imgur.'' ''https://imgur.com/xyz'' @ ''.jpeg''))
         ''id1'' ''out'' False demo_world"
    by blast
  from no download_imgur_post_rewrite
    [of "''https://example.org/xyz''" demo_env "''id1''" "''out''" False demo_world]
  have 2: "download_imgur_post demo_env ''https://example.org/xyz'' ''id1'' ''out'' False demo_world
     = (Inr ''failed_to_convert_to_image_url'', demo_world)"
    by blast
  from 1 2 show ?thesis unfolding rw by blast
qed

section \<open>The album resolver\<close>

lemma str_split_first: "\<exists>xs. str_split sep s = takeWhile (\<lambda>x. x \<noteq> sep) s # xs"
  by (induction s) auto

lemma content_before_query_Some:
  assumes "meta_tag ''content'' = Some c"
  shows "content_before_query meta_tag w = (Inr (takeWhile (\<lambda>x. x \<noteq> CHR ''?'') c), w)"
proof -
  obtain xs where "str_split CHR ''?'' c = takeWhile (\<lambda>x. x \<noteq> CHR ''?'') c # xs"
    using str_split_first by blast
  with assms show ?thesis by (simp add: content_before_query_def ret_def)
qed

text \<open>
  Claim C8: once the page fetch has returned a response, the album-info resolver returns
  \<^verbatim>\<open>None\<close> when the status is not 200; the sentinel \<^verbatim>\<open>unrecovered\<close> when the page has
  no Open-Graph image element, or when the element's content is empty before its first
  question mark; and otherwise that content up to its first question mark.
\<close>

theorem get_imgur_album_info_cases:
  assumes "requests_get e album_url = Inr r"
  shows "(status_code r \<noteq> 200 \<longrightarrow> fst (get_imgur_album_info e album_url w) = Inr None)
    \<and> (status_code r = 200 \<and> content r = Inr html \<and> soup_find_og_image e html = Inr None
         \<longrightarrow> fst (get_imgur_album_info e album_url w) = Inr (Some ''unrecovered''))
    \<and> (status_code r = 200 \<and> content r = Inr html
         \<and> soup_find_og_image e html = Inr (Some meta_tag) \<and> meta_tag ''content'' = Some c
         \<longrightarrow> fst (get_imgur_album_info e album_url w)
             = Inr (Some (if takeWhile (\<lambda>x. x \<noteq> CHR ''?'') c = [] then ''unrecovered''
                          else takeWhile (\<lambda>x. x \<noteq> CHR ''?'') c)))"
  using assms
  by (simp add: get_imgur_album_info_def plain_get_def comp_defs content_before_query_Some)

theorem get_imgur_album_info_cases_witness:
  "fst (get_imgur_album_info demo_env ''https://imgur.com/a/gone'' demo_world) = Inr None
   \<and> fst (get_imgur_album_info demo_env ''https://imgur.com/a/nometa'' demo_world)
       = Inr (Some ''unrecovered'')
   \<and> fst (get_imgur_album_info demo_env ''https://imgur.com/a/empty'' demo_world)
       = Inr (Some ''unrecovered'')
   \<and> fst (get_imgur_album_info demo_env ''https://imgur.com/a/ok'' demo_world)
       = Inr (Some ''https://i.imgur.com/abc.png'')"
proof -
  have g1: "requests_get demo_env ''https://imgur.com/a/gone'' = Inr not_found_response"
    by (simp add: demo_env_def demo_requests_get_def)
  have g2: "requests_get demo_env ''https://imgur.com/a/nometa''
      = Inr (ok_response ''text/html'' ''PAGE_NOMETA'')"
    by (simp add: demo_env_def demo_requests_get_def)
  have g3: "requests_get demo_env ''https://imgur.com/a/empty''
      = Inr (ok_response ''text/html'' ''PAGE_EMPTY'')"
    by (simp add: demo_env_def demo_requests_get_def)
  have g4: "requests_get demo_env ''https://imgur.com/a/ok''
      = Inr (ok_response ''text/html'' ''PAGE_OK'')"
    by (simp add: demo_env_def demo_requests_get_def)
  have 1: "fst (get_imgur_album_info demo_env ''https://imgur.com/a/gone'' demo_world) = Inr None"
    using get_imgur_album_info_cases [OF g1, where w = demo_world]
    by (simp add: not_found_response_def)
  have 2: "fst (get_imgur_album_info demo_env ''https://imgur.com/a/nometa'' demo_world)
      = Inr (Some ''unrecovered'')"
    using get_imgur_album_info_cases [OF g2, where w = demo_world and html = "''PAGE_NOMETA''"]
    by (simp add: ok_response_def demo_env_def demo_soup_find_def)
  have 3: "fst (get_imgur_album_info demo_env ''https://imgur.com/a/empty'' demo_world)
      = Inr (Some ''unrecovered'')"
    using get_imgur_album_info_cases [OF g3, where w = demo_world and html = "''PAGE_EMPTY''"
        and meta_tag = "[''property'' \<mapsto> ''og:image'', ''content'' \<mapsto> ''?fb'']"
        and c = "''?fb''"]
    by (simp add: ok_response_def demo_env_def demo_soup_find_def)
  have 4: "fst (get_imgur_album_info demo_env ''https://imgur.com/a/ok'' demo_world)
      = Inr (Some ''https://i.imgur.com/abc.png'')"
    using get_imgur_album_info_cases [OF g4, where w = demo_world and html = "''PAGE_OK''"
        and meta_tag = "[''property'' \<mapsto> ''og:image'',
                         ''content'' \<mapsto> ''https://i.imgur.com/abc.png?fb'']"
        and c = "''https://i.imgur.com/abc.png?fb''"]
    by (simp add: ok_response_def demo_env_def demo_soup_find_def)
  from 1 2 3 4 show ?thesis by blast
qed

section \<open>Exceptions at the boundary of the three download operations\<close>

lemma download_imgur_image_returns:
  assumes "\<not> verbose"
  shows "\<exists>status. fst (download_imgur_image e url image_id folder verbose w) = Inr status"
  using assms
  by (auto simp: download_imgur_image_eq print_status_def comp_defs split: prod.splits)

lemma download_imgur_post_returns:
  assumes "\<not> verbose"
  shows "\<exists>status. fst (download_imgur_post e url image_id folder verbose w) = Inr status"
  using assms download_imgur_image_returns [of verbose e _ image_id folder w]
  by (simp add: download_imgur_post_def ret_def Let_def)

lemma download_imgur_image_print_raises:
  assumes "verbose"
    and "print_error e (image_id @ '' '' @ status_of url (fst (try_body e url image_id folder w)))
      = Some x"
  shows "fst (download_imgur_image e url image_id folder verbose w) = Inl x"
  using assms
  by (auto simp: download_imgur_image_eq print_status_def comp_defs split: prod.splits)

lemma try_body_exception_status:
  assumes "fst (try_body e url image_id folder w) = Inl (Exception msg)"
    and "url \<noteq> Some ''unrecovered''"
  shows "status_of url (fst (try_body e url image_id folder w)) = ''Failure: '' @ msg"
  using assms by (simp add: status_of_def)

lemma download_imgur_album_propagates:
  assumes "fst (get_imgur_album_info e url w) = Inl x"
  shows "fst (download_imgur_album e url image_id folder verbose w) = Inl x"
  using assms by (auto simp: download_imgur_album_def then_do_def split: prod.splits sum.splits)

text \<open>
  Claim C4 on the album operation: an exception raised while the album page is resolved is
  not caught. Here the page is served, its Open-Graph image element has no content
  attribute, and the \<^verbatim>\<open>AttributeError\<close> of \<^verbatim>\<open>None.split\<close> leaves
  \<^verbatim>\<open>download_imgur_album\<close>; so does the error of a page fetch that fails to connect.
\<close>

theorem download_imgur_album_raises:
  "fst (download_imgur_album demo_env ''https://imgur.com/a/nocontent'' ''id1'' ''out'' False
          demo_world) = Inl none_split_error
   \<and> fst (download_imgur_album demo_env ''https://imgur.com/a/unreachable'' ''id1'' ''out'' False
          demo_world) = Inl (Exception ''Connection refused'')"
  by (simp add: download_imgur_album_def get_imgur_album_info_def plain_get_def comp_defs
      demo_env_def demo_requests_get_def demo_soup_find_def ok_response_def
      content_before_query_def)

section \<open>The direct fetcher: what is written and what is left\<close>

lemma try_body_get_raises:
  assumes "adapter_mounted_for url" and "session_get e url = Inl x"
  shows "try_body e url image_id folder w
     = (Inl x, w\<lparr>http_log := http_log w @ [Session_get url]\<rparr>)"
  using assms by (simp add: try_body_def comp_defs io_defs)

lemma try_body_error_status:
  assumes "adapter_mounted_for url" and "session_get e url = Inr r" and "status_code r \<noteq> 200"
  shows "try_body e url image_id folder w
     = (Inr (''Error '' @ str_of_int (status_code r)),
        w\<lparr>http_log := http_log w @ [Session_get url]\<rparr>)"
  using assms by (simp add: try_body_def comp_defs io_defs)




























section \<open>The extension pattern on strings without a line feed\<close>

lemma at_end_no_line_feed: "line_feed \<notin> set r \<Longrightarrow> at_end r = (r = [])"
  by (auto simp: at_end_def)

lemma dot_star_end_no_line_feed:
  assumes "line_feed \<notin> set r"
  shows "dot_star_end r"
proof -
  from assms have "\<forall>x\<in>set r. x \<noteq> line_feed" by auto
  then have tw: "takeWhile (\<lambda>c. c \<noteq> line_feed) r = r"
    by (simp only: takeWhile_eq_all_conv)
  have n: "length (takeWhile (\<lambda>c. c \<noteq> line_feed) r) = length r"
    by (simp only: tw)
  have "length r \<in> set (rev [0..<Suc (length r)])" by simp
  moreover have "at_end (drop (length r) r)" by (simp add: at_end_def)
  ultimately show ?thesis
    unfolding dot_star_end_def Let_def n list_ex_iff by blast
qed

lemma alnum_not_query: "alnum c \<Longrightarrow> c \<noteq> CHR ''?''"
  by (auto simp: alnum_def)

lemma opt_query_end_no_line_feed:
  assumes "line_feed \<notin> set r"
  shows "opt_query_end r = is_query r"
proof (cases r)
  case Nil
  then show ?thesis by (simp add: opt_query_end_def is_query_def at_end_def)
next
  case (Cons c t)
  with assms have "line_feed \<notin> set t" and "c \<noteq> line_feed" by auto
  then show ?thesis using Cons
    by (auto simp: opt_query_end_def is_query_def at_end_def dot_star_end_no_line_feed)
qed

lemma drop_in_alnum_run:
  assumes "k < length (takeWhile alnum cs)"
  shows "\<not> is_query (drop k cs)"
proof -
  from assms have k: "k < length cs"
    using length_takeWhile_le [of alnum cs] by simp
  from assms have "alnum (cs ! k)"
    by (metis nth_mem set_takeWhileD takeWhile_nth)
  moreover from k have "drop k cs = cs ! k # drop (Suc k) cs"
    by (simp add: Cons_nth_drop_Suc)
  ultimately show ?thesis by (auto simp: is_query_def dest: alnum_not_query)
qed

lemma ext_group_no_line_feed:
  assumes "line_feed \<notin> set cs"
  shows "ext_group cs =
     (if takeWhile alnum cs \<noteq> [] \<and> is_query (dropWhile alnum cs)
      then Some (takeWhile alnum cs) else None)"
proof -
  let ?n = "length (takeWhile alnum cs)"
  let ?P = "\<lambda>k. opt_query_end (drop k cs)"
  have P: "?P k = is_query (drop k cs)" for k
    using assms by (intro opt_query_end_no_line_feed) (auto dest: in_set_dropD)
  have "\<not> ?P k" if "k \<in> set (rev [1..<?n])" for k
  proof -
    from that have "k < ?n" by simp
    then have "\<not> is_query (drop k cs)" by (rule drop_in_alnum_run)
    then show ?thesis by (simp add: P)
  qed
  then have below: "find ?P (rev [1..<?n]) = None"
    unfolding find_None_iff by blast
  have dropn: "drop ?n cs = dropWhile alnum cs" by (rule dropWhile_eq_drop [symmetric])
  have taken: "take ?n cs = takeWhile alnum cs" by (rule takeWhile_eq_take [symmetric])
  show ?thesis
  proof (cases "?n = 0")
    case True
    then show ?thesis by (simp add: ext_group_def)
  next
    case False
    then have pos: "Suc 0 \<le> ?n" by (cases "takeWhile alnum cs") simp_all
    then have "[1..<Suc ?n] = [1..<?n] @ [?n]" by simp
    then have "rev [1..<Suc ?n] = ?n # rev [1..<?n]" by (simp only: rev_append rev.simps append.simps)
    then have "find ?P (rev [1..<Suc ?n]) = find ?P (?n # rev [1..<?n])" by (simp only:)
    also have "\<dots> = (if ?P ?n then Some ?n else find ?P (rev [1..<?n]))"
      by (simp only: find.simps)
    also have "\<dots> = (if ?P ?n then Some ?n else None)" by (simp only: below)
    also have "\<dots> = (if is_query (dropWhile alnum cs) then Some ?n else None)"
      using P [of ?n] by (simp only: dropn)
    finally have fnd: "find ?P (rev [1..<Suc ?n])
        = (if is_query (dropWhile alnum cs) then Some ?n else None)" .
    have ne: "takeWhile alnum cs \<noteq> []" using pos by auto
    have "ext_group cs = map_option (\<lambda>k. take k cs)
        (if is_query (dropWhile alnum cs) then Some ?n else None)"
      unfolding ext_group_def Let_def fnd ..
    also have "\<dots> = (if is_query (dropWhile alnum cs) then Some (takeWhile alnum cs) else None)"
      by (simp add: taken)
    finally show ?thesis using ne by simp
  qed
qed

lemma token_run:
  assumes "list_all alnum tok" and "is_query q"
  shows "takeWhile alnum (tok @ q) = tok" and "dropWhile alnum (tok @ q) = q"
proof -
  from assms(2) have q: "takeWhile alnum q = []"
    by (cases q) (auto simp: is_query_def dest: alnum_not_query)
  from assms(1) have all: "\<forall>x\<in>set tok. alnum x" by (simp add: list_all_iff)
  from all q show "takeWhile alnum (tok @ q) = tok" by (simp add: takeWhile_append2)
  from q have "dropWhile alnum q = q" by (cases q) (auto split: if_splits)
  with all show "dropWhile alnum (tok @ q) = q" by (simp add: dropWhile_append2)
qed

lemma match_at_split:
  assumes "line_feed \<notin> set r"
  shows "match_at r = Some tok \<longleftrightarrow> (\<exists>q. ext_split r [] tok q)"
proof
  assume m: "match_at r = Some tok"
  then obtain cs where r: "r = CHR ''.'' # cs" and g: "ext_group cs = Some tok"
    by (auto simp: match_at_def split: list.splits if_splits)
  from assms r have "line_feed \<notin> set cs" by simp
  from g ext_group_no_line_feed [OF this]
  have tok: "tok = takeWhile alnum cs" and ne: "tok \<noteq> []" and qq: "is_query (dropWhile alnum cs)"
    by (auto split: if_splits)
  have "cs = tok @ dropWhile alnum cs" by (simp add: tok)
  with r have "r = [] @ ''.'' @ tok @ dropWhile alnum cs" by simp
  moreover have "list_all alnum tok" unfolding tok list_all_iff by (auto dest: set_takeWhileD)
  ultimately have "ext_split r [] tok (dropWhile alnum cs)"
    unfolding ext_split_def using ne qq by blast
  then show "\<exists>q. ext_split r [] tok q" ..
next
  assume "\<exists>q. ext_split r [] tok q"
  then obtain q where r: "r = CHR ''.'' # tok @ q" and ne: "tok \<noteq> []"
    and al: "list_all alnum tok" and qq: "is_query q"
    by (auto simp: ext_split_def)
  from assms r have "line_feed \<notin> set (tok @ q)" by simp
  from ext_group_no_line_feed [OF this] token_run [OF al qq] ne qq
  have "ext_group (tok @ q) = Some tok" by simp
  with r show "match_at r = Some tok" by (simp add: match_at_def)
qed

lemma re_search_ext_hit: "match_at r = Some tok \<Longrightarrow> re_search_ext r = Some tok"
  by (cases r) simp_all

lemma re_search_ext_skip:
  assumes "\<And>p' r'. s = p' @ r' \<Longrightarrow> length p' < length p \<Longrightarrow> match_at r' = None"
    and "s = p @ r"
  shows "re_search_ext (p @ r) = re_search_ext r"
  using assms
proof (induction p arbitrary: s)
  case Nil
  then show ?case by simp
next
  case (Cons c p)
  have here: "match_at ((c # p) @ r) = None"
    using Cons.prems(1) [of "[]" "(c # p) @ r"] Cons.prems(2) by simp
  have "re_search_ext (p @ r) = re_search_ext r"
  proof (rule Cons.IH [of "p @ r"])
    fix p' r' assume "p @ r = p' @ r'" and "length p' < length p"
    then show "match_at r' = None"
      using Cons.prems(1) [of "c # p'" r'] Cons.prems(2) by simp
  qed simp
  with here show ?case by simp
qed

lemma re_search_ext_none:
  assumes "\<And>p r. s = p @ r \<Longrightarrow> match_at r = None"
  shows "re_search_ext s = None"
  using assms
proof (induction s)
  case Nil
  then show ?case by simp
next
  case (Cons c s)
  have "match_at (c # s) = None" using Cons.prems [of "[]" "c # s"] by simp
  moreover have "re_search_ext s = None"
  proof (rule Cons.IH)
    fix p r assume "s = p @ r"
    then show "match_at r = None" using Cons.prems [of "c # p" r] by simp
  qed
  ultimately show ?case by simp
qed

lemma ext_split_suffix: "ext_split (p @ r) p tok q = ext_split r [] tok q"
  by (simp add: ext_split_def)

lemma ext_split_prefix: "ext_split url pre tok q \<Longrightarrow> url = pre @ (''.'' @ tok @ q)"
  by (simp add: ext_split_def)

lemma find_image_url_extension_leftmost:
  assumes nl: "line_feed \<notin> set url"
    and sp: "ext_split url pre tok q"
    and least: "\<forall>pre' tok' q'. ext_split url pre' tok' q' \<longrightarrow> length pre \<le> length pre'"
  shows "find_image_url_extension url = tok"
proof -
  let ?r = "''.'' @ tok @ q"
  have url: "url = pre @ ?r" using sp by (rule ext_split_prefix)
  from nl url have nlr: "line_feed \<notin> set ?r" by auto
  from sp url have "ext_split ?r [] tok q" using ext_split_suffix [of pre ?r tok q] by simp
  then have hit: "match_at ?r = Some tok" using match_at_split [OF nlr] by blast
  have "re_search_ext (pre @ ?r) = re_search_ext ?r"
  proof (rule re_search_ext_skip [of url])
    fix p' r' assume u: "url = p' @ r'" and short: "length p' < length pre"
    show "match_at r' = None"
    proof (cases "match_at r'")
      case None then show ?thesis .
    next
      case (Some tok')
      from nl u have "line_feed \<notin> set r'" by auto
      from Some match_at_split [OF this] obtain q' where "ext_split r' [] tok' q'" by blast
      then have "ext_split url p' tok' q'" using u ext_split_suffix [of p' r' tok' q'] by simp
      with least have "length pre \<le> length p'" by blast
      with short show ?thesis by simp
    qed
  qed (rule url)
  with hit url have "re_search_ext url = Some tok" by (simp add: re_search_ext_hit)
  then show ?thesis by (simp add: find_image_url_extension_def)
qed

lemma find_image_url_extension_default:
  assumes nl: "line_feed \<notin> set url"
    and none: "\<forall>pre tok q. \<not> ext_split url pre tok q"
  shows "find_image_url_extension url = ''jpeg''"
proof -
  have "re_search_ext url = None"
  proof (rule re_search_ext_none)
    fix p r assume u: "url = p @ r"
    show "match_at r = None"
    proof (cases "match_at r")
      case None then show ?thesis .
    next
      case (Some tok')
      from nl u have "line_feed \<notin> set r" by auto
      from Some match_at_split [OF this] obtain q' where "ext_split r [] tok' q'" by blast
      then have "ext_split url p tok' q'" using u ext_split_suffix [of p r tok' q'] by simp
      with none show ?thesis by blast
    qed
  qed
  then show ?thesis by (simp add: find_image_url_extension_def)
qed

lemma is_ext_token_occurs: "is_ext_token url tok \<Longrightarrow> occurs_in (''.'' @ tok) url"
proof -
  assume "is_ext_token url tok"
  then obtain pre q where "url = pre @ (''.'' @ tok) @ q"
    by (auto simp: is_ext_token_def ext_split_def)
  then show ?thesis unfolding occurs_in_def by blast
qed

text \<open>
  Claim C9, as the code has it, for a URL with no line feed in it: the resolver returns,
  with its case kept, the alphanumeric token of the leftmost place where a dot and a
  non-empty alphanumeric token are followed by the end of the string or by a question
  mark, and \<^verbatim>\<open>jpeg\<close> when there is no such place; it returns \<^verbatim>\<open>png\<close> and
  \<^verbatim>\<open>jpeg\<close> on the two URLs the claim names.
\<close>

theorem find_image_url_extension_token:
  assumes "line_feed \<notin> set url"
  shows "(ext_split url pre tok q
        \<and> (\<forall>pre' tok' q'. ext_split url pre' tok' q' \<longrightarrow> length pre \<le> length pre')
      \<longrightarrow> find_image_url_extension url = tok)
    \<and> ((\<forall>pre tok q. \<not> ext_split url pre tok q) \<longrightarrow> find_image_url_extension url = ''jpeg'')
    \<and> find_image_url_extension ''https://i.imgur.com/abc123.png?x=1'' = ''png''
    \<and> find_image_url_extension ''https://i.imgur.com/abc123'' = ''jpeg''"
proof (intro conjI impI)
  assume "ext_split url pre tok q
      \<and> (\<forall>pre' tok' q'. ext_split url pre' tok' q' \<longrightarrow> length pre \<le> length pre')"
  then show "find_image_url_extension url = tok"
    using find_image_url_extension_leftmost [OF assms] by blast
next
  assume "\<forall>pre tok q. \<not> ext_split url pre tok q"
  then show "find_image_url_extension url = ''jpeg''"
    by (rule find_image_url_extension_default [OF assms])
next
  show "find_image_url_extension ''https://i.imgur.com/abc123.png?x=1'' = ''png''"
    by code_simp
next
  show "find_image_url_extension ''https://i.imgur.com/abc123'' = ''jpeg''"
    by code_simp
qed

theorem find_image_url_extension_token_witness:
  "find_image_url_extension ''x.PnG?y=1'' = ''PnG''
   \<and> find_image_url_extension ''abc'' = ''jpeg''"
proof -
  have nl1: "line_feed \<notin> set ''x.PnG?y=1''" by (simp add: line_feed_def)
  have nl2: "line_feed \<notin> set ''abc''" by (simp add: line_feed_def)
  have sp: "ext_split ''x.PnG?y=1'' ''x'' ''PnG'' ''?y=1''"
    by (simp add: ext_split_def is_query_def alnum_def)
  have least: "\<forall>pre' tok' q'. ext_split ''x.PnG?y=1'' pre' tok' q'
      \<longrightarrow> length ''x'' \<le> length pre'"
  proof (intro allI impI)
    fix pre' tok' q' assume "ext_split ''x.PnG?y=1'' pre' tok' q'"
    then have "''x.PnG?y=1'' = pre' @ ''.'' @ tok' @ q'" by (simp add: ext_split_def)
    then have "pre' \<noteq> []" by auto
    then show "length ''x'' \<le> length pre'" by (cases pre') simp_all
  qed
  have none: "\<forall>pre tok q. \<not> ext_split ''abc'' pre tok q"
  proof (intro allI notI)
    fix pre tok q assume "ext_split ''abc'' pre tok q"
    then have "''abc'' = pre @ ''.'' @ tok @ q" by (simp add: ext_split_def)
    then have "set ''abc'' = set (pre @ ''.'' @ tok @ q)" by (simp only:)
    then have "CHR ''.'' \<in> set ''abc''" by simp
    then show False by simp
  qed
  from sp least find_image_url_extension_token [OF nl1, of "''x''" "''PnG''" "''?y=1''"]
  have 1: "find_image_url_extension ''x.PnG?y=1'' = ''PnG''" by blast
  from none find_image_url_extension_token [OF nl2]
  have 2: "find_image_url_extension ''abc'' = ''jpeg''" by blast
  from 1 2 show ?thesis by blast
qed

text \<open>
  The claim as stated fails on a string with a line feed in its query part: the token
  \<^verbatim>\<open>png\<close> stands before the query string, yet the pattern's \<^verbatim>\<open>.*$\<close> cannot cross the
  line feed, nothing matches, and the resolver returns the default, which is no token of
  this string.
\<close>

theorem find_image_url_extension_line_feed_counterexample:
  "ext_split (''https://i.imgur.com/abc.png?x=1'' @ [line_feed] @ ''y'')
      ''https://i.imgur.com/abc'' ''png'' (''?x=1'' @ [line_feed] @ ''y'')
   \<and> find_image_url_extension (''https://i.imgur.com/abc.png?x=1'' @ [line_feed] @ ''y'')
       = ''jpeg''
   \<and> \<not> is_ext_token (''https://i.imgur.com/abc.png?x=1'' @ [line_feed] @ ''y'') ''jpeg''"
proof (intro conjI)
  show "ext_split (''https://i.imgur.com/abc.png?x=1'' @ [line_feed] @ ''y'')
      ''https://i.imgur.com/abc'' ''png'' (''?x=1'' @ [line_feed] @ ''y'')"
    by (simp add: ext_split_def is_query_def alnum_def)
next
  show "find_image_url_extension (''https://i.imgur.com/abc.png?x=1'' @ [line_feed] @ ''y'')
      = ''jpeg''"
    by code_simp
next
  have "\<not> str_contains (''.'' @ ''jpeg'')
      (''https://i.imgur.com/abc.png?x=1'' @ [line_feed] @ ''y'')"
    by (simp add: line_feed_def)
  then show "\<not> is_ext_token (''https://i.imgur.com/abc.png?x=1'' @ [line_feed] @ ''y'') ''jpeg''"
    using is_ext_token_occurs unfolding str_contains_iff by blast
qed

end
